theory Spec2Isabelle
  imports Complex_Main "HOL-Library.Char_ord" "HOL-Library.List_Lexorder" "HOL-Library.Multiset"
begin

section \<open>Token usage rows and their consolidation\<close>

text \<open>
  A token usage row, with the columns of the CSV written by both Lambdas
  (lambda/tokens-process/README.md, "Columns"). \<open>create_date\<close> is the text
  \<open>YYYY-MM-DD HH:MM:SS\<close>, compared as text; the prices are decimals with six
  fractional digits; \<open>source\<close> is \<open>old_table\<close> or \<open>new_table\<close>.
\<close>

record row =
  create_date :: string
  input_token :: nat
  output_token :: nat
  precio_token_input :: rat
  precio_token_output :: rat
  total_price :: rat
  pk :: string
  sk :: string
  source :: string

text \<open>The composite key of \<open>drop_duplicates(subset=['pk', 'sk'])\<close>.\<close>

definition row_key :: "row \<Rightarrow> string \<times> string" where
  "row_key r = (pk r, sk r)"

text \<open>Every column that is not part of the composite key.\<close>

definition payload :: "row \<Rightarrow> string \<times> nat \<times> nat \<times> rat \<times> rat \<times> rat \<times> string" where
  "payload r = (create_date r, input_token r, output_token r,
                precio_token_input r, precio_token_output r, total_price r, source r)"

text \<open>
  \<open>DataFrame.drop_duplicates(subset=['pk', 'sk'])\<close>, whose default is
  \<open>keep='first'\<close>: the rows are scanned in order, and a row is kept when its key
  has not been seen before. \<open>seen\<close> holds the keys met so far.
\<close>

fun drop_duplicates_from :: "(string \<times> string) list \<Rightarrow> row list \<Rightarrow> row list" where
  "drop_duplicates_from seen [] = []"
| "drop_duplicates_from seen (r # rs) =
     (if row_key r \<in> set seen then drop_duplicates_from seen rs
      else r # drop_duplicates_from (row_key r # seen) rs)"

definition drop_duplicates :: "row list \<Rightarrow> row list" where
  "drop_duplicates rs = drop_duplicates_from [] rs"

text \<open>
  \<open>DataFrame.sort_values('create_date', ascending=False)\<close>: the rows in descending
  order of \<open>create_date\<close>. Rows with equal dates keep their relative order (a stable
  sort); the statements on the set of rows of the result do not depend on that choice.
\<close>

fun insert_desc :: "row \<Rightarrow> row list \<Rightarrow> row list" where
  "insert_desc x [] = [x]"
| "insert_desc x (y # ys) =
     (if create_date y \<le> create_date x then x # y # ys else y # insert_desc x ys)"

fun sort_values :: "row list \<Rightarrow> row list" where
  "sort_values [] = []"
| "sort_values (x # xs) = insert_desc x (sort_values xs)"

text \<open>
  \<^verbatim>\<open>
  def consolidar_datos(datos_nuevos, df_historico):
      df_nuevos = pd.DataFrame(datos_nuevos)
      df_consolidado = pd.concat([df_historico, df_nuevos])
      df_consolidado = df_consolidado.drop_duplicates(subset=['pk', 'sk'])
      return df_consolidado.sort_values('create_date', ascending=False)
  \<close>
\<close>

definition consolidar_datos :: "row list \<Rightarrow> row list \<Rightarrow> row list" where
  "consolidar_datos datos_nuevos df_historico =
     sort_values (drop_duplicates (df_historico @ datos_nuevos))"

text \<open>A list of rows in descending order of \<open>create_date\<close>.\<close>

fun sorted_desc :: "row list \<Rightarrow> bool" where
  "sorted_desc [] = True"
| "sorted_desc [x] = True"
| "sorted_desc (x # y # ys) = (create_date y \<le> create_date x \<and> sorted_desc (y # ys))"

section \<open>Python values\<close>

text \<open>
  The message maps come from DynamoDB items, so a value is \<open>None\<close>, a boolean, an
  integer, a string, a list or a dictionary with string keys. A dictionary is an
  association list read with \<open>map_of\<close>; strings are lists of 8-bit characters
  (Latin-1 code points).
\<close>

datatype pyval =
    PNone
  | PBool bool
  | PInt int
  | PStr string
  | PList "pyval list"
  | PDict "(string \<times> pyval) list"

text \<open>The two exceptions a malformed field can raise in the heuristics.\<close>

datatype error = AttributeError | TypeError

text \<open>\<open>d.get(k, default)\<close>.\<close>

definition dict_get :: "(string \<times> pyval) list \<Rightarrow> string \<Rightarrow> pyval \<Rightarrow> pyval" where
  "dict_get d k dflt = (case map_of d k of None \<Rightarrow> dflt | Some v \<Rightarrow> v)"

text \<open>\<open>len(v)\<close>: defined on strings, lists and dictionaries, a \<open>TypeError\<close> otherwise.\<close>

fun py_len :: "pyval \<Rightarrow> error + nat" where
  "py_len (PStr s) = Inr (length s)"
| "py_len (PList xs) = Inr (length xs)"
| "py_len (PDict kvs) = Inr (length kvs)"
| "py_len PNone = Inl TypeError"
| "py_len (PBool b) = Inl TypeError"
| "py_len (PInt i) = Inl TypeError"

text \<open>
  \<open>for r in v\<close>: the elements of a list, the characters of a string, the keys of a
  dictionary; a \<open>TypeError\<close> on a value that is not iterable.
\<close>

fun py_iter :: "pyval \<Rightarrow> error + pyval list" where
  "py_iter (PList xs) = Inr xs"
| "py_iter (PStr s) = Inr (map (\<lambda>c. PStr [c]) s)"
| "py_iter (PDict kvs) = Inr (map (\<lambda>kv. PStr (fst kv)) kvs)"
| "py_iter PNone = Inl TypeError"
| "py_iter (PBool b) = Inl TypeError"
| "py_iter (PInt i) = Inl TypeError"



subsection \<open>Text of a value: \<open>json.dumps\<close> and \<open>str\<close>\<close>

text \<open>The digit of a number below sixteen, and the two hexadecimal digits of a character.\<close>

definition hex_digit :: "nat \<Rightarrow> char" where
  "hex_digit n = ''0123456789abcdef'' ! (n mod 16)"

definition hex2 :: "char \<Rightarrow> string" where
  "hex2 c = [hex_digit (of_char c div 16), hex_digit (of_char c mod 16)]"

text \<open>The decimal text of an integer, as \<open>str\<close> and \<open>json.dumps\<close> print it.\<close>

fun str_nat :: "nat \<Rightarrow> string" where
  "str_nat n = (if n < 10 then [hex_digit n] else str_nat (n div 10) @ [hex_digit (n mod 10)])"

declare str_nat.simps [simp del]

definition str_int :: "int \<Rightarrow> string" where
  "str_int i = (if i < 0 then CHR ''-'' # str_nat (nat (- i)) else str_nat (nat i))"

text \<open>\<open>sep.join(parts)\<close>.\<close>

fun join :: "string \<Rightarrow> string list \<Rightarrow> string" where
  "join sep [] = []"
| "join sep [x] = x"
| "join sep (x # y # ys) = x @ sep @ join sep (y # ys)"

text \<open>
  A string inside \<open>json.dumps\<close> output (\<open>ensure_ascii=True\<close>): the quote and the
  backslash are escaped, the control characters have their short escapes, and every other
  character outside space..tilde becomes \<open>\u00XX\<close>.
\<close>

definition json_escape_char :: "char \<Rightarrow> string" where
  "json_escape_char c =
     (if c = CHR 0x22 then [CHR 0x5C, CHR 0x22]
      else if c = CHR 0x5C then [CHR 0x5C, CHR 0x5C]
      else if c = CHR 0x0A then [CHR 0x5C, CHR ''n'']
      else if c = CHR 0x0D then [CHR 0x5C, CHR ''r'']
      else if c = CHR 0x09 then [CHR 0x5C, CHR ''t'']
      else if c = CHR 0x08 then [CHR 0x5C, CHR ''b'']
      else if c = CHR 0x0C then [CHR 0x5C, CHR ''f'']
      else if (of_char c :: nat) < 32 \<or> 126 < (of_char c :: nat)
        then [CHR 0x5C, CHR ''u'', CHR ''0'', CHR ''0''] @ hex2 c
      else [c])"

definition json_string :: "string \<Rightarrow> string" where
  "json_string s = [CHR 0x22] @ concat (map json_escape_char s) @ [CHR 0x22]"

text \<open>
  \<open>json.dumps(v)\<close> with its default separators: \<open>', '\<close> between items and
  \<open>': '\<close> between a key and its value.
\<close>

fun json_dumps :: "pyval \<Rightarrow> string" where
  "json_dumps PNone = ''null''"
| "json_dumps (PBool b) = (if b then ''true'' else ''false'')"
| "json_dumps (PInt i) = str_int i"
| "json_dumps (PStr s) = json_string s"
| "json_dumps (PList xs) = ''['' @ join '', '' (map json_dumps xs) @ '']''"
| "json_dumps (PDict kvs) =
     ''{'' @ join '', ''
        (map (\<lambda>kv. json_string (fst kv) @ '': '' @ json_dumps (snd kv)) kvs) @ ''}''"

text \<open>
  \<open>repr\<close> of a string: single quotes unless the string has a single quote and no
  double quote; the quote in use and the backslash are escaped; tab, newline and carriage
  return have their short escapes; the other non-printable characters become \<open>\xXX\<close>.
\<close>

definition repr_quote :: "string \<Rightarrow> char" where
  "repr_quote s = (if CHR 0x27 \<in> set s \<and> CHR 0x22 \<notin> set s then CHR 0x22 else CHR 0x27)"

definition repr_escape_char :: "char \<Rightarrow> char \<Rightarrow> string" where
  "repr_escape_char q c =
     (let n = (of_char c :: nat) in
      if c = q \<or> c = CHR 0x5C then [CHR 0x5C, c]
      else if c = CHR 0x09 then [CHR 0x5C, CHR ''t'']
      else if c = CHR 0x0A then [CHR 0x5C, CHR ''n'']
      else if c = CHR 0x0D then [CHR 0x5C, CHR ''r'']
      else if n < 32 \<or> n = 127 then [CHR 0x5C, CHR ''x''] @ hex2 c
      else if n < 127 then [c]
      else if n \<le> 160 \<or> n = 173 then [CHR 0x5C, CHR ''x''] @ hex2 c
      else [c])"

definition repr_string :: "string \<Rightarrow> string" where
  "repr_string s =
     (let q = repr_quote s in [q] @ concat (map (repr_escape_char q) s) @ [q])"

fun py_repr :: "pyval \<Rightarrow> string" where
  "py_repr PNone = ''None''"
| "py_repr (PBool b) = (if b then ''True'' else ''False'')"
| "py_repr (PInt i) = str_int i"
| "py_repr (PStr s) = repr_string s"
| "py_repr (PList xs) = ''['' @ join '', '' (map py_repr xs) @ '']''"
| "py_repr (PDict kvs) =
     ''{'' @ join '', ''
        (map (\<lambda>kv. repr_string (fst kv) @ '': '' @ py_repr (snd kv)) kvs) @ ''}''"

text \<open>\<open>str(v)\<close>: a string is its own text, any other value prints as its \<open>repr\<close>.\<close>

fun py_str :: "pyval \<Rightarrow> string" where
  "py_str (PStr s) = s"
| "py_str v = py_repr v"

section \<open>Token extraction\<close>

text \<open>
  Modelled from the spec: \<open>calculate_tokens\<close> is called by \<open>process_content_item\<close>
  and is not in the sources. The spec (4.1) and the README ("Token Calculation:
  LENGTH(text) / 4") give it as the length of the text divided by four, rounded down;
  the length is \<open>len\<close>, as in the legacy heuristic's \<open>len(body) // 4\<close>.
\<close>

definition calculate_tokens :: "pyval \<Rightarrow> error + nat" where
  "calculate_tokens text = (case py_len text of Inl e \<Rightarrow> Inl e | Inr n \<Rightarrow> Inr (n div 4))"

subsection \<open>Legacy heuristic\<close>











subsection \<open>Enhanced heuristic\<close>

text \<open>\<open>sum([calculate_tokens(str(r)) for r in result_content])\<close>.\<close>

fun sum_result_tokens :: "pyval list \<Rightarrow> error + nat" where
  "sum_result_tokens [] = Inr 0"
| "sum_result_tokens (r # rs) =
     (case calculate_tokens (PStr (py_str r)) of
        Inl e \<Rightarrow> Inl e
      | Inr t \<Rightarrow> (case sum_result_tokens rs of Inl e \<Rightarrow> Inl e | Inr s \<Rightarrow> Inr (t + s)))"

text \<open>
  \<^verbatim>\<open>
  def process_content_item(item, parent_role):
      content_type = item.get('content_type', 'text')
      if content_type == 'text':
          tokens = calculate_tokens(item.get('body', ''))
      elif content_type == 'toolUse':
          tool_input = item.get('body', {}).get('input', {})
          tokens = calculate_tokens(json.dumps(tool_input))
          return 0, tokens  # OUTPUT tokens
      elif content_type == 'toolResult':
          result_content = item.get('body', {}).get('content', [])
          tokens = sum([calculate_tokens(str(r)) for r in result_content])
          return tokens, 0  # INPUT tokens
  \<close>
  Only the \<open>toolUse\<close> and \<open>toolResult\<close> arms return a pair (input tokens, output
  tokens). The text arm computes its tokens and then reaches the end of the function, as
  does every other content type: there the call yields \<open>None\<close>, and the result of the
  model is no pair. \<open>parent_role\<close> is read nowhere. \<open>.get\<close> on a value that is not a
  dictionary raises \<open>AttributeError\<close>.
\<close>

definition process_content_item :: "pyval \<Rightarrow> pyval \<Rightarrow> error + (nat \<times> nat) option" where
  "process_content_item item parent_role =
     (case item of
        PDict d \<Rightarrow>
          (let content_type = dict_get d ''content_type'' (PStr ''text'') in
           if content_type = PStr ''text'' then
             (case calculate_tokens (dict_get d ''body'' (PStr '''')) of
                Inl e \<Rightarrow> Inl e
              | Inr tokens \<Rightarrow> Inr None)
           else if content_type = PStr ''toolUse'' then
             (case dict_get d ''body'' (PDict []) of
                PDict b \<Rightarrow>
                  (case calculate_tokens (PStr (json_dumps (dict_get b ''input'' (PDict [])))) of
                     Inl e \<Rightarrow> Inl e
                   | Inr tokens \<Rightarrow> Inr (Some (0, tokens)))
              | _ \<Rightarrow> Inl AttributeError)
           else if content_type = PStr ''toolResult'' then
             (case dict_get d ''body'' (PDict []) of
                PDict b \<Rightarrow>
                  (case py_iter (dict_get b ''content'' (PList [])) of
                     Inl e \<Rightarrow> Inl e
                   | Inr result_content \<Rightarrow>
                       (case sum_result_tokens result_content of
                          Inl e \<Rightarrow> Inl e
                        | Inr tokens \<Rightarrow> Inr (Some (tokens, 0))))
              | _ \<Rightarrow> Inl AttributeError)
           else Inr None)
      | _ \<Rightarrow> Inl AttributeError)"

text \<open>
  Modelled from the spec: \<open>process_node_content\<close> is called by
  \<open>extract_tokens_from_messagemap_v2\<close> and is not in the sources. The spec (4.1)
  dispatches each content item of the entry through \<open>process_content_item\<close> and asks
  for processing over arbitrary nesting depth; a missing or unknown field degrades to a
  zero contribution. So a dictionary is a content item, whose contribution is the pair
  that \<open>process_content_item\<close> returns, and nothing when it returns no pair; a list is
  processed element by element to any depth; any other value contributes nothing. The
  first error ends the scan, as an exception would.
\<close>

definition item_contribution :: "pyval \<Rightarrow> pyval \<Rightarrow> error + nat \<times> nat" where
  "item_contribution item role =
     (case process_content_item item role of
        Inl e \<Rightarrow> Inl e
      | Inr None \<Rightarrow> Inr (0, 0)
      | Inr (Some c) \<Rightarrow> Inr c)"

fun add_contributions :: "(error + nat \<times> nat) list \<Rightarrow> error + nat \<times> nat" where
  "add_contributions [] = Inr (0, 0)"
| "add_contributions (Inl e # rs) = Inl e"
| "add_contributions (Inr c # rs) =
     (case add_contributions rs of
        Inl e \<Rightarrow> Inl e
      | Inr s \<Rightarrow> Inr (fst c + fst s, snd c + snd s))"

fun process_node_content :: "pyval \<Rightarrow> pyval \<Rightarrow> error + nat \<times> nat" where
  "process_node_content (PList items) role =
     add_contributions (map (\<lambda>item. process_node_content item role) items)"
| "process_node_content (PDict d) role = item_contribution (PDict d) role"
| "process_node_content PNone role = Inr (0, 0)"
| "process_node_content (PBool b) role = Inr (0, 0)"
| "process_node_content (PInt i) role = Inr (0, 0)"
| "process_node_content (PStr s) role = Inr (0, 0)"

text \<open>
  \<^verbatim>\<open>
  def extract_tokens_from_messagemap_v2(message_map):
      input_tokens = 0
      output_tokens = 0
      for node_id, node_data in message_map.items():
          role = node_data.get('role')
          content = node_data.get('content', [])
          node_input, node_output = process_node_content(content, role)
          input_tokens += node_input
          output_tokens += node_output
      return input_tokens, output_tokens
  \<close>
\<close>

definition v2_entry_step :: "pyval \<Rightarrow> nat \<times> nat \<Rightarrow> error + nat \<times> nat" where
  "v2_entry_step node_data acc =
     (case node_data of
        PDict d \<Rightarrow>
          (case process_node_content (dict_get d ''content'' (PList [])) (dict_get d ''role'' PNone) of
             Inl e \<Rightarrow> Inl e
           | Inr node \<Rightarrow> Inr (fst acc + fst node, snd acc + snd node))
      | _ \<Rightarrow> Inl AttributeError)"

fun v2_entry_loop :: "(string \<times> pyval) list \<Rightarrow> nat \<times> nat \<Rightarrow> error + nat \<times> nat" where
  "v2_entry_loop [] acc = Inr acc"
| "v2_entry_loop (entry # rest) acc =
     (case v2_entry_step (snd entry) acc of
        Inl e \<Rightarrow> Inl e
      | Inr acc' \<Rightarrow> v2_entry_loop rest acc')"

definition extract_tokens_from_messagemap_v2 ::
  "(string \<times> pyval) list \<Rightarrow> error + nat \<times> nat" where
  "extract_tokens_from_messagemap_v2 message_map = v2_entry_loop message_map (0, 0)"


text \<open>
  Example content items: the \<open>toolUse\<close> item of the spec's scenario C, a
  \<open>toolResult\<close> item with two results, and a text item that carries no
  \<open>content_type\<close>.
\<close>

definition scenario_c_input :: pyval where
  "scenario_c_input = PDict [(''a'', PStr ''bcd'')]"

definition scenario_c_fields :: "(string \<times> pyval) list" where
  "scenario_c_fields =
     [(''content_type'', PStr ''toolUse''), (''body'', PDict [(''input'', scenario_c_input)])]"

definition scenario_c_item :: pyval where
  "scenario_c_item = PDict scenario_c_fields"

definition tool_result_fields :: "(string \<times> pyval) list" where
  "tool_result_fields =
     [(''content_type'', PStr ''toolResult''),
      (''body'', PDict [(''content'',
         PList [PStr ''abcdefgh'', PDict [(''text'', PStr ''hello'')]])])]"

definition untagged_fields :: "(string \<times> pyval) list" where
  "untagged_fields = [(''body'', PStr ''abcdefgh'')]"

text \<open>
  Example entries: a user entry holding the \<open>toolUse\<close> item, an assistant entry
  holding the \<open>toolResult\<close> item, and an entry of a given role with an empty content
  list.
\<close>

definition tool_use_entry :: "(string \<times> pyval) list" where
  "tool_use_entry = [(''role'', PStr ''user''), (''content'', PList [PDict scenario_c_fields])]"

definition tool_result_entry :: "(string \<times> pyval) list" where
  "tool_result_entry =
     [(''role'', PStr ''assistant''), (''content'', PList [PDict tool_result_fields])]"

definition empty_entry :: "string \<Rightarrow> (string \<times> pyval) list" where
  "empty_entry role = [(''role'', PStr role), (''content'', PList [])]"



section \<open>Price computation\<close>

text \<open>
  The unit prices, in dollars per thousand tokens (README, "Input Cost: $0.003 per 1K
  tokens", "Output Cost: $0.015 per 1K tokens"). Amounts are exact fractions of a dollar.
\<close>

definition price_in :: rat where
  "price_in = 3 / 1000"

definition price_out :: rat where
  "price_out = 15 / 1000"

text \<open>
  Modelled from the spec: the rounding of a price to the column type
  \<open>DECIMAL(10,6)\<close> is in the Lambda scripts, which are not in the sources. The spec
  (4.2) asks for a fixed precision of six fractional digits: \<open>quantize6\<close> takes an
  amount to the nearest multiple of \<open>10^-6\<close>.
\<close>

definition quantize6 :: "rat \<Rightarrow> rat" where
  "quantize6 x = of_int (round (x * 1000000)) / 1000000"

text \<open>The three price columns of a row.\<close>

record prices =
  price_input :: rat
  price_output :: rat
  price_total :: rat

text \<open>
  Modelled from the spec: the function that prices a pair of token counts is in
  \<open>tokens_lambda.py\<close> and \<open>lambda-tokens-archival-processing.py\<close>, which are not in
  the sources; the README shows its constants and one priced row. The spec (4.2) computes
  \<open>input_tokens/1000 * price_in + output_tokens/1000 * price_out\<close>, each amount held
  with six fractional digits.
\<close>

definition calculate_prices :: "nat \<Rightarrow> nat \<Rightarrow> prices" where
  "calculate_prices input_tokens output_tokens =
     (let p_in = quantize6 (of_nat input_tokens / 1000 * price_in);
          p_out = quantize6 (of_nat output_tokens / 1000 * price_out)
      in \<lparr>price_input = p_in, price_output = p_out, price_total = quantize6 (p_in + p_out)\<rparr>)"

text \<open>An amount that six fractional decimal digits hold exactly.\<close>

definition six_decimals :: "rat \<Rightarrow> bool" where
  "six_decimals x = (of_int (floor (x * 1000000)) = x * 1000000)"

section \<open>The daily job and the archival object\<close>

text \<open>
  Storage maps an object key to the rows of the CSV stored under it; the log is the list
  of conditions a run reports.
\<close>

type_synonym storage = "string \<rightharpoonup> row list"

datatype log_entry = HistoricalFileNotFound string

text \<open>
  Modelled from the spec: the part of \<open>tokens_lambda.py\<close> that reads the archival CSV
  from storage is not in the sources. The spec (4.3, 7) makes a missing archival object a
  recoverable condition: it is logged and the historical half is the empty dataset.
\<close>

definition read_historical :: "storage \<Rightarrow> string \<Rightarrow> row list \<times> log_entry list" where
  "read_historical s3 historical_key =
     (case s3 historical_key of
        None \<Rightarrow> ([], [HistoricalFileNotFound historical_key])
      | Some df_historico \<Rightarrow> (df_historico, []))"

text \<open>
  Modelled from the spec: the handler of \<open>tokens_lambda.py\<close> is not in the sources.
  The spec (4.3) has it read the archival rows, consolidate them with the rows computed
  in this run through \<open>consolidar_datos\<close>, and overwrite the single consolidated
  object with the result on every run.
\<close>

definition daily_job ::
  "storage \<Rightarrow> string \<Rightarrow> string \<Rightarrow> row list \<Rightarrow> storage \<times> log_entry list" where
  "daily_job s3 historical_key output_key datos_nuevos =
     (let (df_historico, log) = read_historical s3 historical_key
      in (s3(output_key \<mapsto> consolidar_datos datos_nuevos df_historico), log))"

section \<open>The rule that starts the transform job\<close>

text \<open>
  A storage event as EventBridge delivers it: its source, its detail type, and the
  bucket name and object key of its detail.
\<close>

record s3_event =
  ev_source :: string
  ev_detail_type :: string
  ev_bucket_name :: string
  ev_object_key :: string

text \<open>
  The event pattern of a rule. Each field lists the values it accepts; the object key is
  matched by prefix filters (\<open>{ prefix: ... }\<close>).
\<close>

datatype key_filter = Prefix string

record event_pattern =
  pat_source :: "string list"
  pat_detailType :: "string list"
  pat_bucket_name :: "string list"
  pat_object_key :: "key_filter list"

text \<open>A target: an AWS API call with its service, its action and the job name.\<close>

datatype target = AwsApi string string string

record rule =
  ruleName :: string
  eventPattern :: event_pattern
  targets :: "target list"

text \<open>
  \<^verbatim>\<open>
  const rule = new events.Rule(this, "OnCsvArrived", {
    ruleName: `${environment}-cat-on-csv-arrived`,
    eventPattern: {
      source: ["aws.s3"],
      detailType: ["Object Created"],
      detail: {
        bucket: { name: [dataBucket.bucketName] },
        object: { key: [{ prefix: cleanPrefix }] },
      },
    },
  });
  rule.addTarget(new targets.AwsApi({
    service: "Glue", action: "startJobRun",
    parameters: { JobName: glueJobName }, ... }));
  \<close>
\<close>

definition OrchestratorConstruct :: "string \<Rightarrow> string \<Rightarrow> string \<Rightarrow> string \<Rightarrow> rule" where
  "OrchestratorConstruct environment bucketName cleanPrefix glueJobName =
     \<lparr>ruleName = environment @ ''-cat-on-csv-arrived'',
      eventPattern =
        \<lparr>pat_source = [''aws.s3''],
         pat_detailType = [''Object Created''],
         pat_bucket_name = [bucketName],
         pat_object_key = [Prefix cleanPrefix]\<rparr>,
      targets = [AwsApi ''Glue'' ''startJobRun'' glueJobName]\<rparr>"

text \<open>
  How EventBridge reads a pattern: every field of the pattern must accept the event's
  value, a field accepts a value that one of its entries matches, a string matches itself
  and a prefix filter matches the keys that begin with it. A matched event invokes each
  target of the rule once.
\<close>

fun key_matches :: "key_filter \<Rightarrow> string \<Rightarrow> bool" where
  "key_matches (Prefix p) k = (take (length p) k = p)"

definition matches :: "event_pattern \<Rightarrow> s3_event \<Rightarrow> bool" where
  "matches p e =
     (ev_source e \<in> set (pat_source p) \<and>
      ev_detail_type e \<in> set (pat_detailType p) \<and>
      ev_bucket_name e \<in> set (pat_bucket_name p) \<and>
      list_ex (\<lambda>f. key_matches f (ev_object_key e)) (pat_object_key p))"

definition invocations :: "rule \<Rightarrow> s3_event \<Rightarrow> target list" where
  "invocations r e = (if matches (eventPattern r) e then targets r else [])"

text \<open>
  The production values (lib/configs/prod-etl.config.ts), and the job name that
  \<open>TransformJobConstruct\<close> builds from the environment.
\<close>

definition prod_dataBucketName :: string where
  "prod_dataBucketName = ''cat-prod-normalize-reports''"

definition prod_cleanPrefix :: string where
  "prod_cleanPrefix = ''reports/etl-process1/''"

definition prod_curatedPrefix :: string where
  "prod_curatedPrefix = ''reports/etl-process2/''"

definition transform_jobName :: "string \<Rightarrow> string" where
  "transform_jobName environment = ''cat-'' @ environment @ ''-etl2-parquet''"

definition prod_rule :: rule where
  "prod_rule =
     OrchestratorConstruct ''prod'' prod_dataBucketName prod_cleanPrefix (transform_jobName ''prod'')"

text \<open>The event S3 sends when an object is created in a bucket under a key.\<close>

definition object_created :: "string \<Rightarrow> string \<Rightarrow> s3_event" where
  "object_created bucket key =
     \<lparr>ev_source = ''aws.s3'', ev_detail_type = ''Object Created'',
      ev_bucket_name = bucket, ev_object_key = key\<rparr>"

section \<open>Example rows\<close>

text \<open>
  The priced row of the README, a new row that collides with it on \<open>(pk, sk)\<close>, and
  two new rows with keys of their own.
\<close>

definition old_row :: row where
  "old_row =
     \<lparr>create_date = ''2025-01-08 14:30:45'', input_token = 1234, output_token = 5678,
      precio_token_input = 3702 / 1000000, precio_token_output = 85170 / 1000000,
      total_price = 88872 / 1000000, pk = ''PK#123'', sk = ''SK#456'',
      source = ''old_table''\<rparr>"

definition new_row :: row where
  "new_row =
     old_row\<lparr>create_date := ''2025-12-02 09:00:00'', input_token := 40, source := ''new_table''\<rparr>"

definition new_row_other :: row where
  "new_row_other =
     new_row\<lparr>create_date := ''2025-12-03 10:00:00'', pk := ''PK#124'', sk := ''SK#457''\<rparr>"

definition new_row_third :: row where
  "new_row_third =
     new_row\<lparr>create_date := ''2025-12-01 07:00:00'', pk := ''PK#125'', sk := ''SK#458''\<rparr>"

section \<open>Properties of the consolidation\<close>

subsection \<open>Facts about \<open>drop_duplicates\<close>\<close>

lemma set_drop_duplicates_from:
  "set (drop_duplicates_from seen rs) \<subseteq> set rs"
  by (induction rs arbitrary: seen) auto

lemma keys_drop_duplicates_from:
  "row_key ` set (drop_duplicates_from seen rs) = row_key ` set rs - set seen"
  by (induction rs arbitrary: seen) auto

lemma distinct_drop_duplicates_from:
  "distinct (map row_key (drop_duplicates_from seen rs))"
proof (induction rs arbitrary: seen)
  case Nil
  then show ?case by simp
next
  case (Cons r rs)
  have "row_key r \<notin> row_key ` set (drop_duplicates_from (row_key r # seen) rs)"
    by (simp add: keys_drop_duplicates_from)
  with Cons show ?case by simp
qed

lemma drop_duplicates_from_cong:
  "set seen = set seen' \<Longrightarrow> drop_duplicates_from seen rs = drop_duplicates_from seen' rs"
proof (induction rs arbitrary: seen seen')
  case Nil
  then show ?case by simp
next
  case (Cons r rs)
  have "set (row_key r # seen) = set (row_key r # seen')"
    using Cons.prems by simp
  then have "drop_duplicates_from (row_key r # seen) rs
             = drop_duplicates_from (row_key r # seen') rs"
    by (rule Cons.IH)
  moreover have "drop_duplicates_from seen rs = drop_duplicates_from seen' rs"
    using Cons.prems by (rule Cons.IH)
  ultimately show ?case using Cons.prems by simp
qed

lemma drop_duplicates_from_append:
  "drop_duplicates_from seen (xs @ ys) =
     drop_duplicates_from seen xs @ drop_duplicates_from (map row_key xs @ seen) ys"
proof (induction xs arbitrary: seen)
  case Nil
  then show ?case by simp
next
  case (Cons x xs)
  show ?case
  proof (cases "row_key x \<in> set seen")
    case True
    then have "set (map row_key (x # xs) @ seen) = set (map row_key xs @ seen)"
      by auto
    then have "drop_duplicates_from (map row_key (x # xs) @ seen) ys
               = drop_duplicates_from (map row_key xs @ seen) ys"
      by (rule drop_duplicates_from_cong)
    with True Cons show ?thesis by simp
  next
    case False
    have "set (map row_key (x # xs) @ seen) = set (map row_key xs @ row_key x # seen)"
      by auto
    then have "drop_duplicates_from (map row_key (x # xs) @ seen) ys
               = drop_duplicates_from (map row_key xs @ row_key x # seen) ys"
      by (rule drop_duplicates_from_cong)
    with False Cons show ?thesis by simp
  qed
qed

lemma drop_duplicates_from_all_seen:
  "row_key ` set rs \<subseteq> set seen \<Longrightarrow> drop_duplicates_from seen rs = []"
  by (induction rs arbitrary: seen) auto

lemma drop_duplicates_from_distinct:
  "distinct (map row_key rs) \<Longrightarrow> row_key ` set rs \<inter> set seen = {}
   \<Longrightarrow> drop_duplicates_from seen rs = rs"
  by (induction rs arbitrary: seen) auto

lemma filter_drop_duplicates_from:
  "k \<notin> set seen \<Longrightarrow>
   filter (\<lambda>r. row_key r = k) (drop_duplicates_from seen rs)
     = (case find (\<lambda>r. row_key r = k) rs of None \<Rightarrow> [] | Some a \<Rightarrow> [a])"
proof (induction rs arbitrary: seen)
  case Nil
  then show ?case by simp
next
  case (Cons r rs)
  show ?case
  proof (cases "row_key r = k")
    case True
    have "k \<notin> row_key ` set (drop_duplicates_from (k # seen) rs)"
      by (simp add: keys_drop_duplicates_from)
    then have "filter (\<lambda>r. row_key r = k) (drop_duplicates_from (k # seen) rs) = []"
      by (auto simp: filter_empty_conv)
    with True Cons.prems show ?thesis by simp
  next
    case False
    then have "k \<notin> set (row_key r # seen)"
      using Cons.prems by auto
    from Cons.IH [OF this] Cons.IH [OF Cons.prems] False show ?thesis by simp
  qed
qed

subsection \<open>Facts about \<open>sort_values\<close>\<close>

lemma mset_insert_desc: "mset (insert_desc x ys) = add_mset x (mset ys)"
  by (induction ys) auto

lemma mset_sort_values: "mset (sort_values xs) = mset xs"
  by (induction xs) (auto simp: mset_insert_desc)

lemma set_sort_values: "set (sort_values xs) = set xs"
  using mset_sort_values [of xs] by (metis set_mset_mset)

lemma sorted_desc_insert_desc: "sorted_desc ys \<Longrightarrow> sorted_desc (insert_desc x ys)"
proof (induction ys rule: sorted_desc.induct)
  case 1
  then show ?case by simp
next
  case (2 y)
  then show ?case by auto
next
  case (3 y z zs)
  then show ?case by auto
qed

lemma sorted_desc_sort_values: "sorted_desc (sort_values xs)"
  by (induction xs) (auto simp: sorted_desc_insert_desc)

lemma insert_desc_sorted: "sorted_desc (x # ys) \<Longrightarrow> insert_desc x ys = x # ys"
  by (cases ys) auto

lemma sorted_desc_tail: "sorted_desc (x # ys) \<Longrightarrow> sorted_desc ys"
  by (cases ys) auto

lemma sort_values_sorted: "sorted_desc xs \<Longrightarrow> sort_values xs = xs"
proof (induction xs)
  case Nil
  then show ?case by simp
next
  case (Cons x xs)
  then have "sort_values xs = xs"
    using sorted_desc_tail by blast
  with Cons.prems show ?case by (simp add: insert_desc_sorted)
qed

lemma distinct_keys_sort_values:
  "distinct (map row_key (sort_values xs)) = distinct (map row_key xs)"
proof -
  have "mset (map row_key (sort_values xs)) = mset (map row_key xs)"
    by (simp add: mset_sort_values)
  then show ?thesis by (metis distinct_count_atmost_1 set_mset_mset)
qed

lemma filter_sort_values_single:
  assumes "filter P xs = [a]"
  shows "filter P (sort_values xs) = [a]"
proof -
  have "mset (filter P (sort_values xs)) = mset (filter P xs)"
    by (simp add: mset_sort_values)
  with assms have "mset (filter P (sort_values xs)) = {#a#}" by simp
  then show ?thesis by (metis mset_single_iff_right)
qed

lemma keys_consolidar_datos:
  "row_key ` set (consolidar_datos datos_nuevos df_historico)
     = row_key ` set (df_historico @ datos_nuevos)"
  by (simp add: consolidar_datos_def drop_duplicates_def set_sort_values
      keys_drop_duplicates_from)

lemma filter_consolidar_datos:
  "filter (\<lambda>r. row_key r = k) (consolidar_datos datos_nuevos df_historico)
     = (case find (\<lambda>r. row_key r = k) (df_historico @ datos_nuevos) of
          None \<Rightarrow> [] | Some r \<Rightarrow> [r])"
proof (cases "find (\<lambda>r. row_key r = k) (df_historico @ datos_nuevos)")
  case None
  then have "k \<notin> row_key ` set (df_historico @ datos_nuevos)"
    by (auto simp: find_None_iff)
  then have "k \<notin> row_key ` set (consolidar_datos datos_nuevos df_historico)"
    by (simp add: keys_consolidar_datos)
  then have "filter (\<lambda>r. row_key r = k) (consolidar_datos datos_nuevos df_historico) = []"
    by (auto simp: filter_empty_conv)
  with None show ?thesis by simp
next
  case (Some a)
  have "filter (\<lambda>r. row_key r = k) (drop_duplicates (df_historico @ datos_nuevos)) = [a]"
    using filter_drop_duplicates_from [of k "[]" "df_historico @ datos_nuevos"] Some
    by (simp add: drop_duplicates_def)
  then have "filter (\<lambda>r. row_key r = k) (consolidar_datos datos_nuevos df_historico) = [a]"
    unfolding consolidar_datos_def by (rule filter_sort_values_single)
  with Some show ?thesis by simp
qed

lemma find_append_left:
  "find P xs = Some a \<Longrightarrow> find P (xs @ ys) = Some a"
  by (induction xs) (auto split: if_splits)

lemma find_in_set: "x \<in> set xs \<Longrightarrow> P x \<Longrightarrow> \<exists>y. find P xs = Some y \<and> y \<in> set xs \<and> P y"
  by (induction xs) auto

lemma find_distinct_key:
  "distinct (map row_key xs) \<Longrightarrow> a \<in> set xs \<Longrightarrow> find (\<lambda>r. row_key r = row_key a) xs = Some a"
  by (induction xs) (auto simp: image_iff)

subsection \<open>Claims on the consolidation\<close>

text \<open>
  Claim C1. Consolidation concatenates the archival rows then the new rows and keeps, for
  every composite key \<open>(pk, sk)\<close>, exactly the first row with that key in that order.
  Consequently, whenever an archival row and a new row share a key, the one row of the
  output with that key is an archival row, the first that has the key, and never the new
  row; and as \<open>(pk, sk)\<close> identifies a row within its source, so that the archive has
  one row per key, it is that archival row itself: its payload is the one present in the
  consolidated output.
\<close>

theorem consolidar_datos_archival_row_wins:
  assumes "a \<in> set df_historico" and "b \<in> set datos_nuevos" and "row_key b = row_key a"
  shows "(\<forall>k. filter (\<lambda>r. row_key r = k) (consolidar_datos datos_nuevos df_historico)
              = (case find (\<lambda>r. row_key r = k) (df_historico @ datos_nuevos) of
                   None \<Rightarrow> [] | Some r \<Rightarrow> [r]))
       \<and> (\<exists>a'. a' \<in> set df_historico
              \<and> find (\<lambda>r. row_key r = row_key a) df_historico = Some a'
              \<and> filter (\<lambda>r. row_key r = row_key a) (consolidar_datos datos_nuevos df_historico) = [a'])
       \<and> (distinct (map row_key df_historico) \<longrightarrow>
            filter (\<lambda>r. row_key r = row_key a) (consolidar_datos datos_nuevos df_historico) = [a]
            \<and> map payload
                 (filter (\<lambda>r. row_key r = row_key a) (consolidar_datos datos_nuevos df_historico))
               = [payload a])"
proof -
  obtain a' where a': "find (\<lambda>r. row_key r = row_key a) df_historico = Some a'"
    and mem: "a' \<in> set df_historico"
    using find_in_set [of a df_historico "\<lambda>r. row_key r = row_key a"] assms(1) by auto
  have "find (\<lambda>r. row_key r = row_key a) (df_historico @ datos_nuevos) = Some a'"
    using a' by (rule find_append_left)
  then have kept: "filter (\<lambda>r. row_key r = row_key a) (consolidar_datos datos_nuevos df_historico) = [a']"
    by (simp add: filter_consolidar_datos)
  have "distinct (map row_key df_historico) \<Longrightarrow> a' = a"
    using find_distinct_key [of df_historico a] assms(1) a' by simp
  with kept a' mem show ?thesis
    by (auto simp: filter_consolidar_datos)
qed

theorem consolidar_datos_archival_row_wins_witness:
  "old_row \<in> set [old_row] \<and> new_row \<in> set [new_row, new_row_other]
   \<and> row_key new_row = row_key old_row \<and> payload new_row \<noteq> payload old_row
   \<and> distinct (map row_key [old_row])
   \<and> filter (\<lambda>r. row_key r = row_key old_row) (consolidar_datos [new_row, new_row_other] [old_row]) = [old_row]
   \<and> consolidar_datos [new_row, new_row_other] [old_row] = [new_row_other, old_row]"
proof -
  have h1: "old_row \<in> set [old_row]" by simp
  have h2: "new_row \<in> set [new_row, new_row_other]" by simp
  have h3: "row_key new_row = row_key old_row"
    by (simp add: row_key_def new_row_def old_row_def)
  have h4: "distinct (map row_key [old_row])" by simp
  have h5: "payload new_row \<noteq> payload old_row"
    by (simp add: payload_def new_row_def old_row_def)
  have h6: "consolidar_datos [new_row, new_row_other] [old_row] = [new_row_other, old_row]"
    by (simp add: consolidar_datos_def drop_duplicates_def row_key_def
        new_row_other_def new_row_def old_row_def)
  from consolidar_datos_archival_row_wins [OF h1 h2 h3] h1 h2 h3 h4 h5 h6
  show ?thesis by blast
qed

text \<open>
  Claim C2. Whatever the archival rows and the new rows, the consolidated output has at
  most one row for each composite key \<open>(pk, sk)\<close>: its keys are pairwise distinct.
\<close>

theorem consolidar_datos_unique_keys:
  "distinct (map row_key (consolidar_datos datos_nuevos df_historico))"
  by (simp add: consolidar_datos_def drop_duplicates_def distinct_keys_sort_values
      distinct_drop_duplicates_from)

lemma consolidar_datos_sorted: "sorted_desc (consolidar_datos datos_nuevos df_historico)"
  by (simp add: consolidar_datos_def sorted_desc_sort_values)

lemma consolidar_datos_fixpoint:
  assumes "distinct (map row_key c)" and "sorted_desc c"
    and "row_key ` set extra \<subseteq> row_key ` set c"
  shows "consolidar_datos extra c = c"
proof -
  have "drop_duplicates_from [] c = c"
    using assms(1) by (simp add: drop_duplicates_from_distinct)
  moreover have "drop_duplicates_from (map row_key c @ []) extra = []"
    using assms(3) by (simp add: drop_duplicates_from_all_seen)
  ultimately have "drop_duplicates (c @ extra) = c"
    by (simp add: drop_duplicates_def drop_duplicates_from_append)
  with assms(2) show ?thesis
    by (simp add: consolidar_datos_def sort_values_sorted)
qed

text \<open>
  Claim C3. Consolidation is idempotent: consolidating the consolidated output again, as
  the archival half or as the new half of an otherwise empty run, or as the archival half
  of a run with the same new rows, gives the consolidated output back, row for row and in
  the same order. It holds for all inputs, so in particular for inputs that are each
  deduplicated by \<open>(pk, sk)\<close>; the order of rows with equal dates is the one a stable
  sort leaves.
\<close>

theorem consolidar_datos_idempotent:
  "consolidar_datos [] (consolidar_datos datos_nuevos df_historico)
     = consolidar_datos datos_nuevos df_historico
   \<and> consolidar_datos (consolidar_datos datos_nuevos df_historico) []
     = consolidar_datos datos_nuevos df_historico
   \<and> consolidar_datos datos_nuevos (consolidar_datos datos_nuevos df_historico)
     = consolidar_datos datos_nuevos df_historico"
proof -
  let ?c = "consolidar_datos datos_nuevos df_historico"
  have d: "distinct (map row_key ?c)"
    by (simp add: consolidar_datos_def drop_duplicates_def distinct_keys_sort_values
      distinct_drop_duplicates_from)
  have s: "sorted_desc ?c" by (rule consolidar_datos_sorted)
  have k: "row_key ` set datos_nuevos \<subseteq> row_key ` set ?c"
    by (auto simp: keys_consolidar_datos)
  have 1: "consolidar_datos [] ?c = ?c"
    using d s by (rule consolidar_datos_fixpoint) simp
  have 3: "consolidar_datos datos_nuevos ?c = ?c"
    using d s k by (rule consolidar_datos_fixpoint)
  have "consolidar_datos ?c [] = consolidar_datos [] ?c"
    by (simp add: consolidar_datos_def)
  with 1 3 show ?thesis by simp
qed

section \<open>Properties of the token heuristics\<close>

subsection \<open>The enhanced scan as a sum of contributions\<close>

lemma sum_result_tokens_eq:
  "sum_result_tokens rs = Inr (sum_list (map (\<lambda>r. length (py_str r) div 4) rs))"
  by (induction rs) (simp_all add: calculate_tokens_def)

lemma add_contributions_cons:
  "(add_contributions (c # ys) = Inr s)
     = (\<exists>n s0. c = Inr n \<and> add_contributions ys = Inr s0
          \<and> s = (fst s0 + fst n, snd s0 + snd n))"
proof (cases c)
  case (Inl e)
  then show ?thesis by simp
next
  case (Inr n)
  then show ?thesis
    by (cases "add_contributions ys") (auto simp: add.commute)
qed

lemma add_contributions_insert:
  "(add_contributions (xs @ c # ys) = Inr s)
     = (\<exists>n s0. c = Inr n \<and> add_contributions (xs @ ys) = Inr s0
          \<and> s = (fst s0 + fst n, snd s0 + snd n))"
proof (induction xs arbitrary: s)
  case Nil
  show ?case using add_contributions_cons [of c ys s] by simp
next
  case (Cons x xs)
  show ?case
  proof (cases x)
    case (Inl e)
    then show ?thesis by simp
  next
    case (Inr m)
    show ?thesis
    proof
      assume "add_contributions ((x # xs) @ c # ys) = Inr s"
      then obtain t where t: "add_contributions (xs @ c # ys) = Inr t"
        and s: "s = (fst m + fst t, snd m + snd t)"
        using Inr by (auto split: sum.splits)
      from t obtain n s0 where n: "c = Inr n" and s0: "add_contributions (xs @ ys) = Inr s0"
        and t': "t = (fst s0 + fst n, snd s0 + snd n)"
        using Cons.IH [of t] by blast
      have "add_contributions ((x # xs) @ ys) = Inr (fst m + fst s0, snd m + snd s0)"
        using Inr s0 by simp
      moreover have "s = (fst (fst m + fst s0, snd m + snd s0) + fst n,
                          snd (fst m + fst s0, snd m + snd s0) + snd n)"
        using s t' by simp
      ultimately show "\<exists>n s0. c = Inr n \<and> add_contributions ((x # xs) @ ys) = Inr s0
          \<and> s = (fst s0 + fst n, snd s0 + snd n)"
        using n by blast
    next
      assume "\<exists>n s0. c = Inr n \<and> add_contributions ((x # xs) @ ys) = Inr s0
          \<and> s = (fst s0 + fst n, snd s0 + snd n)"
      then obtain n s0 where n: "c = Inr n"
        and s0: "add_contributions ((x # xs) @ ys) = Inr s0"
        and s: "s = (fst s0 + fst n, snd s0 + snd n)"
        by blast
      from s0 obtain u where u: "add_contributions (xs @ ys) = Inr u"
        and s0': "s0 = (fst m + fst u, snd m + snd u)"
        using Inr by (auto split: sum.splits)
      have "add_contributions (xs @ c # ys) = Inr (fst u + fst n, snd u + snd n)"
        using Cons.IH [of "(fst u + fst n, snd u + snd n)"] n u by blast
      then show "add_contributions ((x # xs) @ c # ys) = Inr s"
        using Inr s s0' by simp
    qed
  qed
qed

lemma v2_entry_step_acc:
  "v2_entry_step v acc =
     (case v2_entry_step v (0, 0) of
        Inl e \<Rightarrow> Inl e
      | Inr n \<Rightarrow> Inr (fst acc + fst n, snd acc + snd n))"
  by (simp add: v2_entry_step_def split: pyval.splits sum.splits)

lemma v2_entry_loop_sum:
  "v2_entry_loop message_map acc =
     (case add_contributions (map (\<lambda>entry. v2_entry_step (snd entry) (0, 0)) message_map) of
        Inl e \<Rightarrow> Inl e
      | Inr s \<Rightarrow> Inr (fst acc + fst s, snd acc + snd s))"
proof (induction message_map arbitrary: acc)
  case Nil
  then show ?case by simp
next
  case (Cons entry rest)
  show ?case
  proof (cases "v2_entry_step (snd entry) (0, 0)")
    case (Inl e)
    then show ?thesis
      using v2_entry_step_acc [of "snd entry" acc] by simp
  next
    case (Inr n)
    then have "v2_entry_step (snd entry) acc = Inr (fst acc + fst n, snd acc + snd n)"
      using v2_entry_step_acc [of "snd entry" acc] by simp
    then show ?thesis
      using Inr Cons.IH [of "(fst acc + fst n, snd acc + snd n)"]
      by (simp add: add.assoc split: sum.splits)
  qed
qed

lemma extract_v2_sum:
  "extract_tokens_from_messagemap_v2 message_map =
     add_contributions (map (\<lambda>entry. v2_entry_step (snd entry) (0, 0)) message_map)"
  by (simp add: extract_tokens_from_messagemap_v2_def v2_entry_loop_sum split: sum.splits)

lemma node_with_item:
  assumes "dict_get e ''content'' (PList []) = PList (pre @ PDict d # post)"
    and "dict_get e' ''content'' (PList []) = PList (pre @ post)"
    and "dict_get e' ''role'' PNone = dict_get e ''role'' PNone"
  shows "(v2_entry_step (PDict e) (0, 0) = Inr n)
     = (\<exists>c n'. item_contribution (PDict d) (dict_get e ''role'' PNone) = Inr c
          \<and> v2_entry_step (PDict e') (0, 0) = Inr n'
          \<and> n = (fst n' + fst c, snd n' + snd c))"
proof -
  let ?f = "\<lambda>item. process_node_content item (dict_get e ''role'' PNone)"
  have incl: "v2_entry_step (PDict e) (0, 0)
        = add_contributions (map ?f pre @ item_contribution (PDict d) (dict_get e ''role'' PNone)
                               # map ?f post)"
    using assms(1) by (simp add: v2_entry_step_def split: sum.splits)
  have excl: "v2_entry_step (PDict e') (0, 0) = add_contributions (map ?f pre @ map ?f post)"
    using assms(2,3) by (simp add: v2_entry_step_def split: sum.splits)
  show ?thesis
    unfolding incl excl by (rule add_contributions_insert)
qed

lemma scan_with_item:
  assumes "dict_get e ''content'' (PList []) = PList (pre @ PDict d # post)"
    and "dict_get e' ''content'' (PList []) = PList (pre @ post)"
    and "dict_get e' ''role'' PNone = dict_get e ''role'' PNone"
  shows "(extract_tokens_from_messagemap_v2 (before @ (k, PDict e) # after) = Inr s)
     = (\<exists>c s'. item_contribution (PDict d) (dict_get e ''role'' PNone) = Inr c
          \<and> extract_tokens_from_messagemap_v2 (before @ (k', PDict e') # after) = Inr s'
          \<and> s = (fst s' + fst c, snd s' + snd c))"
proof -
  let ?g = "\<lambda>entry. v2_entry_step (snd entry) (0, 0)"
  let ?rest = "add_contributions (map ?g before @ map ?g after)"
  have incl: "(extract_tokens_from_messagemap_v2 (before @ (k, PDict e) # after) = Inr s)
      = (\<exists>n s0. v2_entry_step (PDict e) (0, 0) = Inr n \<and> ?rest = Inr s0
           \<and> s = (fst s0 + fst n, snd s0 + snd n))" for s
    using add_contributions_insert
      [of "map ?g before" "v2_entry_step (PDict e) (0, 0)" "map ?g after" s]
    by (simp add: extract_v2_sum)
  have excl: "(extract_tokens_from_messagemap_v2 (before @ (k', PDict e') # after) = Inr s')
      = (\<exists>n' s0. v2_entry_step (PDict e') (0, 0) = Inr n' \<and> ?rest = Inr s0
           \<and> s' = (fst s0 + fst n', snd s0 + snd n'))" for s'
    using add_contributions_insert
      [of "map ?g before" "v2_entry_step (PDict e') (0, 0)" "map ?g after" s']
    by (simp add: extract_v2_sum)
  note node = node_with_item [OF assms]
  show ?thesis
  proof
    assume "extract_tokens_from_messagemap_v2 (before @ (k, PDict e) # after) = Inr s"
    then obtain n s0 where n: "v2_entry_step (PDict e) (0, 0) = Inr n"
      and s0: "?rest = Inr s0" and s: "s = (fst s0 + fst n, snd s0 + snd n)"
      using incl by blast
    from n obtain c n' where c: "item_contribution (PDict d) (dict_get e ''role'' PNone) = Inr c"
      and n': "v2_entry_step (PDict e') (0, 0) = Inr n'"
      and nn: "n = (fst n' + fst c, snd n' + snd c)"
      using node [of n] by blast
    have "extract_tokens_from_messagemap_v2 (before @ (k', PDict e') # after)
          = Inr (fst s0 + fst n', snd s0 + snd n')"
      using excl [of "(fst s0 + fst n', snd s0 + snd n')"] n' s0 by blast
    moreover have "s = (fst (fst s0 + fst n', snd s0 + snd n') + fst c,
                        snd (fst s0 + fst n', snd s0 + snd n') + snd c)"
      using s nn by simp
    ultimately show "\<exists>c s'. item_contribution (PDict d) (dict_get e ''role'' PNone) = Inr c
          \<and> extract_tokens_from_messagemap_v2 (before @ (k', PDict e') # after) = Inr s'
          \<and> s = (fst s' + fst c, snd s' + snd c)"
      using c by blast
  next
    assume "\<exists>c s'. item_contribution (PDict d) (dict_get e ''role'' PNone) = Inr c
          \<and> extract_tokens_from_messagemap_v2 (before @ (k', PDict e') # after) = Inr s'
          \<and> s = (fst s' + fst c, snd s' + snd c)"
    then obtain c s' where c: "item_contribution (PDict d) (dict_get e ''role'' PNone) = Inr c"
      and s': "extract_tokens_from_messagemap_v2 (before @ (k', PDict e') # after) = Inr s'"
      and s: "s = (fst s' + fst c, snd s' + snd c)"
      by blast
    from s' obtain n' s0 where n': "v2_entry_step (PDict e') (0, 0) = Inr n'"
      and s0: "?rest = Inr s0" and ss: "s' = (fst s0 + fst n', snd s0 + snd n')"
      using excl by blast
    have "v2_entry_step (PDict e) (0, 0) = Inr (fst n' + fst c, snd n' + snd c)"
      using node [of "(fst n' + fst c, snd n' + snd c)"] c n' by blast
    then have "extract_tokens_from_messagemap_v2 (before @ (k, PDict e) # after)
          = Inr (fst s0 + fst (fst n' + fst c, snd n' + snd c),
                 snd s0 + snd (fst n' + fst c, snd n' + snd c))"
      using incl [of "(fst s0 + fst (fst n' + fst c, snd n' + snd c),
                       snd s0 + snd (fst n' + fst c, snd n' + snd c))"] s0 by blast
    then show "extract_tokens_from_messagemap_v2 (before @ (k, PDict e) # after) = Inr s"
      using s ss by (simp add: add.assoc)
  qed
qed

subsection \<open>Tool items\<close>

lemma tool_use_contribution:
  "map_of d ''content_type'' = Some (PStr ''toolUse'') \<Longrightarrow>
   (item_contribution (PDict d) role = Inr c)
     = (\<exists>b. dict_get d ''body'' (PDict []) = PDict b
          \<and> c = (0, length (json_dumps (dict_get b ''input'' (PDict []))) div 4))"
  by (cases "dict_get d ''body'' (PDict [])")
     (auto simp: item_contribution_def process_content_item_def dict_get_def
        calculate_tokens_def)

lemma tool_result_contribution:
  "map_of d ''content_type'' = Some (PStr ''toolResult'') \<Longrightarrow>
   (item_contribution (PDict d) role = Inr c)
     = (\<exists>b rs. dict_get d ''body'' (PDict []) = PDict b
          \<and> py_iter (dict_get b ''content'' (PList [])) = Inr rs
          \<and> c = (sum_list (map (\<lambda>r. length (py_str r) div 4) rs), 0))"
proof (cases "dict_get d ''body'' (PDict [])")
  case (PDict b)
  assume "map_of d ''content_type'' = Some (PStr ''toolResult'')"
  with PDict show ?thesis
    by (cases "py_iter (dict_get b ''content'' (PList []))")
       (auto simp: item_contribution_def process_content_item_def dict_get_def
          sum_result_tokens_eq)
qed (auto simp: item_contribution_def process_content_item_def dict_get_def)

text \<open>
  Claim C4. Take any message map of the enhanced heuristic and any content item of
  type \<open>toolUse\<close> in the content list of one of its entries. The scan returns exactly
  when the body of the item is a dictionary (or missing) and the scan of the same map
  without the item returns; its totals are then those of the map without the item, with
  the length of the \<open>json.dumps\<close> text of \<open>body.input\<close>, divided by four, added to
  the output total and nothing added to the input total, whatever the role of the entry.
  For an item of type \<open>toolResult\<close> the scan returns exactly when the body is a
  dictionary whose \<open>content\<close> can be iterated and the scan without the item returns,
  and the sum over the elements of \<open>body.content\<close> of the length of their text divided
  by four is added to the input total and nothing to the output total.
\<close>

theorem tool_items_added_to_totals:
  assumes "dict_get e ''content'' (PList []) = PList (pre @ PDict d # post)"
    and "dict_get e' ''content'' (PList []) = PList (pre @ post)"
    and "dict_get e' ''role'' PNone = dict_get e ''role'' PNone"
  shows "(map_of d ''content_type'' = Some (PStr ''toolUse'') \<longrightarrow>
          (extract_tokens_from_messagemap_v2 (before @ (k, PDict e) # after) = Inr s)
            = (\<exists>b s'. dict_get d ''body'' (PDict []) = PDict b
                 \<and> extract_tokens_from_messagemap_v2 (before @ (k', PDict e') # after) = Inr s'
                 \<and> s = (fst s',
                        snd s' + length (json_dumps (dict_get b ''input'' (PDict []))) div 4)))
       \<and> (map_of d ''content_type'' = Some (PStr ''toolResult'') \<longrightarrow>
          (extract_tokens_from_messagemap_v2 (before @ (k, PDict e) # after) = Inr s)
            = (\<exists>b rs s'. dict_get d ''body'' (PDict []) = PDict b
                 \<and> py_iter (dict_get b ''content'' (PList [])) = Inr rs
                 \<and> extract_tokens_from_messagemap_v2 (before @ (k', PDict e') # after) = Inr s'
                 \<and> s = (fst s' + sum_list (map (\<lambda>r. length (py_str r) div 4) rs),
                        snd s')))"
proof (intro conjI impI)
  assume u: "map_of d ''content_type'' = Some (PStr ''toolUse'')"
  show "(extract_tokens_from_messagemap_v2 (before @ (k, PDict e) # after) = Inr s)
            = (\<exists>b s'. dict_get d ''body'' (PDict []) = PDict b
                 \<and> extract_tokens_from_messagemap_v2 (before @ (k', PDict e') # after) = Inr s'
                 \<and> s = (fst s',
                        snd s' + length (json_dumps (dict_get b ''input'' (PDict []))) div 4))"
    unfolding scan_with_item [OF assms, of before k after s k']
      tool_use_contribution [OF u]
    by auto
next
  assume r: "map_of d ''content_type'' = Some (PStr ''toolResult'')"
  show "(extract_tokens_from_messagemap_v2 (before @ (k, PDict e) # after) = Inr s)
            = (\<exists>b rs s'. dict_get d ''body'' (PDict []) = PDict b
                 \<and> py_iter (dict_get b ''content'' (PList [])) = Inr rs
                 \<and> extract_tokens_from_messagemap_v2 (before @ (k', PDict e') # after) = Inr s'
                 \<and> s = (fst s' + sum_list (map (\<lambda>r. length (py_str r) div 4) rs),
                        snd s'))"
    unfolding scan_with_item [OF assms, of before k after s k']
      tool_result_contribution [OF r]
    by auto
qed

lemma scenario_c_dumps: \<open>json_dumps scenario_c_input = ''{"a": "bcd"}''\<close>
  by (simp add: scenario_c_input_def json_string_def json_escape_char_def)


lemma tool_result_item_tokens:
  "process_content_item (PDict tool_result_fields) parent_role = Inr (Some (6, 0))"
  by (simp add: tool_result_fields_def process_content_item_def dict_get_def
      calculate_tokens_def repr_string_def repr_quote_def repr_escape_char_def Let_def)

lemma tool_result_entry_scan:
  "extract_tokens_from_messagemap_v2 ((k, PDict (empty_entry role)) # [(k', PDict tool_result_entry)])
     = Inr (6, 0)"
  using tool_result_item_tokens [of "PStr ''assistant''"]
  by (simp add: extract_tokens_from_messagemap_v2_def v2_entry_step_def dict_get_def
      empty_entry_def tool_result_entry_def item_contribution_def)

theorem tool_items_added_to_totals_witness:
  "dict_get tool_use_entry ''content'' (PList []) = PList ([] @ PDict scenario_c_fields # [])
   \<and> dict_get (empty_entry ''user'') ''content'' (PList []) = PList ([] @ [])
   \<and> dict_get (empty_entry ''user'') ''role'' PNone = dict_get tool_use_entry ''role'' PNone
   \<and> map_of scenario_c_fields ''content_type'' = Some (PStr ''toolUse'')
   \<and> extract_tokens_from_messagemap_v2
        ([] @ (''n1'', PDict (empty_entry ''user'')) # [(''n2'', PDict tool_result_entry)])
       = Inr (6, 0)
   \<and> extract_tokens_from_messagemap_v2
        ([] @ (''n1'', PDict tool_use_entry) # [(''n2'', PDict tool_result_entry)])
       = Inr (6, 3)
   \<and> dict_get tool_result_entry ''content'' (PList []) = PList ([] @ PDict tool_result_fields # [])
   \<and> dict_get (empty_entry ''assistant'') ''content'' (PList []) = PList ([] @ [])
   \<and> dict_get (empty_entry ''assistant'') ''role'' PNone = dict_get tool_result_entry ''role'' PNone
   \<and> map_of tool_result_fields ''content_type'' = Some (PStr ''toolResult'')
   \<and> extract_tokens_from_messagemap_v2 ([] @ (''n2'', PDict (empty_entry ''assistant'')) # [])
       = Inr (0, 0)
   \<and> extract_tokens_from_messagemap_v2 ([] @ (''n2'', PDict tool_result_entry) # [])
       = Inr (6, 0)"
proof -
  have a1: "dict_get tool_use_entry ''content'' (PList [])
            = PList ([] @ PDict scenario_c_fields # [])"
    by (simp add: tool_use_entry_def dict_get_def)
  have a2: "dict_get (empty_entry r) ''content'' (PList []) = PList ([] @ [])" for r
    by (simp add: empty_entry_def dict_get_def)
  have a3: "dict_get (empty_entry ''user'') ''role'' PNone = dict_get tool_use_entry ''role'' PNone"
    by (simp add: empty_entry_def tool_use_entry_def dict_get_def)
  have u: "map_of scenario_c_fields ''content_type'' = Some (PStr ''toolUse'')"
    by (simp add: scenario_c_fields_def)
  have excl: "extract_tokens_from_messagemap_v2
        ([] @ (''n1'', PDict (empty_entry ''user'')) # [(''n2'', PDict tool_result_entry)])
       = Inr (6, 0)"
    using tool_result_entry_scan [of "''n1''" "''user''" "''n2''"] by simp
  have "\<exists>b s'. dict_get scenario_c_fields ''body'' (PDict []) = PDict b
          \<and> extract_tokens_from_messagemap_v2
               ([] @ (''n1'', PDict (empty_entry ''user'')) # [(''n2'', PDict tool_result_entry)])
              = Inr s'
          \<and> (6, 3) = (fst s',
                 snd s' + length (json_dumps (dict_get b ''input'' (PDict []))) div 4)"
    unfolding excl
    by (intro exI [of _ "[(''input'', scenario_c_input)]"] exI [of _ "(6, 0)"])
       (simp add: scenario_c_fields_def dict_get_def scenario_c_dumps)
  then have incl: "extract_tokens_from_messagemap_v2
        ([] @ (''n1'', PDict tool_use_entry) # [(''n2'', PDict tool_result_entry)])
       = Inr (6, 3)"
    using tool_items_added_to_totals [OF a1 a2 a3, of "[]" "''n1''"
        "[(''n2'', PDict tool_result_entry)]" "(6, 3)" "''n1''"] u
    by blast
  have b1: "dict_get tool_result_entry ''content'' (PList [])
            = PList ([] @ PDict tool_result_fields # [])"
    by (simp add: tool_result_entry_def dict_get_def)
  have b3: "dict_get (empty_entry ''assistant'') ''role'' PNone
            = dict_get tool_result_entry ''role'' PNone"
    by (simp add: empty_entry_def tool_result_entry_def dict_get_def)
  have r: "map_of tool_result_fields ''content_type'' = Some (PStr ''toolResult'')"
    by (simp add: tool_result_fields_def)
  have excl2: "extract_tokens_from_messagemap_v2 ([] @ (''n2'', PDict (empty_entry ''assistant'')) # [])
       = Inr (0, 0)"
    by (simp add: extract_tokens_from_messagemap_v2_def v2_entry_step_def dict_get_def
        empty_entry_def)
  have "\<exists>b rs s'. dict_get tool_result_fields ''body'' (PDict []) = PDict b
          \<and> py_iter (dict_get b ''content'' (PList [])) = Inr rs
          \<and> extract_tokens_from_messagemap_v2
               ([] @ (''n2'', PDict (empty_entry ''assistant'')) # []) = Inr s'
          \<and> (6, 0) = (fst s' + sum_list (map (\<lambda>r. length (py_str r) div 4) rs), snd s')"
    unfolding excl2
    by (intro exI [of _ "[(''content'',
              PList [PStr ''abcdefgh'', PDict [(''text'', PStr ''hello'')]])]"]
          exI [of _ "[PStr ''abcdefgh'', PDict [(''text'', PStr ''hello'')]]"]
          exI [of _ "(0, 0)"])
       (simp add: tool_result_fields_def dict_get_def repr_string_def repr_quote_def
          repr_escape_char_def Let_def)
  then have incl2: "extract_tokens_from_messagemap_v2 ([] @ (''n2'', PDict tool_result_entry) # [])
       = Inr (6, 0)"
    using tool_items_added_to_totals [OF b1 a2 b3, of "[]" "''n2''" "[]" "(6, 0)" "''n2''"] r
    by blast
  from a1 a2 a3 u excl incl b1 b3 r excl2 incl2 show ?thesis by blast
qed

text \<open>
  Claim C6, as amended. For the content item of scenario C, \<open>json.dumps\<close> gives the
  input object the 12-character text \<open>{"a": "bcd"}\<close> (a space follows the colon), so
  the item yields 12 // 4 = 3 tokens, all of them output tokens and none input tokens,
  under every role.
\<close>

theorem scenario_c_tokens:
  \<open>json_dumps scenario_c_input = ''{"a": "bcd"}''
   \<and> length (json_dumps scenario_c_input) = 12
   \<and> process_content_item scenario_c_item parent_role = Inr (Some (0, 12 div 4))
   \<and> process_content_item scenario_c_item parent_role = Inr (Some (0, 3))\<close>
proof -
  have dumped: \<open>json_dumps scenario_c_input = ''{"a": "bcd"}''\<close>
    by (rule scenario_c_dumps)
  then have len: "length (json_dumps scenario_c_input) = 12"
    by simp
  have "calculate_tokens (PStr (json_dumps scenario_c_input)) = Inr (12 div 4)"
    unfolding calculate_tokens_def py_len.simps len by simp
  then have "process_content_item scenario_c_item parent_role = Inr (Some (0, 12 div 4))"
    by (simp add: scenario_c_item_def scenario_c_fields_def process_content_item_def
        dict_get_def)
  with dumped len show ?thesis by simp
qed

text \<open>
  Claim C6 as stated gives the serialized text 15 characters; it has 12.
\<close>

theorem scenario_c_length_counterexample:
  "length (json_dumps scenario_c_input) \<noteq> 15"
  by (simp add: scenario_c_dumps)

subsection \<open>Items with no content type\<close>

lemma untagged_is_text:
  "map_of d ''content_type'' = None \<Longrightarrow>
   process_content_item (PDict d) parent_role
     = process_content_item (PDict ((''content_type'', PStr ''text'') # d)) parent_role"
  by (simp add: process_content_item_def dict_get_def)

lemma outside_dispatch:
  "(dict_get d ''content_type'' (PStr ''text'')
      \<notin> set [PStr ''text'', PStr ''toolUse'', PStr ''toolResult''])
   = (\<exists>t. map_of d ''content_type'' = Some t
        \<and> t \<notin> set [PStr ''text'', PStr ''toolUse'', PStr ''toolResult''])"
  by (auto simp: dict_get_def split: option.splits)

text \<open>
  Claim C10, at the content item \<open>{'body': 'abcdefgh'}\<close> of a user entry. The item has
  no \<open>content_type\<close>, so it takes the text arm, as the same item tagged \<open>text\<close> does,
  and its 8 // 4 = 2 tokens are computed. But the text arm ends without a return: the
  call yields no pair, so the two tokens are attributed to neither total, where the claim
  has them counted as input tokens of the user entry. The \<open>toolUse\<close> and
  \<open>toolResult\<close> arms do return their pair.
\<close>

theorem untagged_item_returns_no_pair:
  "map_of untagged_fields ''content_type'' = None
   \<and> dict_get untagged_fields ''content_type'' (PStr ''text'') = PStr ''text''
   \<and> calculate_tokens (dict_get untagged_fields ''body'' (PStr '''')) = Inr 2
   \<and> process_content_item (PDict untagged_fields) (PStr ''user'') = Inr None
   \<and> process_content_item (PDict ((''content_type'', PStr ''text'') # untagged_fields))
        (PStr ''user'') = Inr None"
proof -
  have tag: "dict_get untagged_fields ''content_type'' (PStr ''text'') = PStr ''text''"
    by (simp add: untagged_fields_def dict_get_def)
  have tokens: "calculate_tokens (dict_get untagged_fields ''body'' (PStr '''')) = Inr 2"
    by (simp add: untagged_fields_def dict_get_def calculate_tokens_def)
  have none: "process_content_item (PDict untagged_fields) (PStr ''user'') = Inr None"
    using tag tokens by (simp add: process_content_item_def)
  have "map_of untagged_fields ''content_type'' = None"
    by (simp add: untagged_fields_def)
  then show ?thesis
    using tag tokens none untagged_is_text [of untagged_fields "PStr ''user''"] by simp
qed

subsection \<open>Missing fields\<close>
















section \<open>Properties of the price computation\<close>

lemma quantize6_exact: "quantize6 (of_int k / 1000000) = of_int k / 1000000"
  by (simp add: quantize6_def)

lemma six_decimals_exact: "six_decimals (of_int k / 1000000)"
  by (simp add: six_decimals_def)

lemma input_price_micro:
  "of_nat n / 1000 * price_in = of_int (3 * int n) / 1000000"
  by (simp add: price_in_def)

lemma output_price_micro:
  "of_nat n / 1000 * price_out = of_int (15 * int n) / 1000000"
  by (simp add: price_out_def)

lemma sum_micro: "(of_int a / 1000000 :: rat) + of_int b / 1000000 = of_int (a + b) / 1000000"
  by (simp add: add_divide_distrib)

text \<open>
  Claim C7. With the unit prices 0.003 and 0.015 dollars per thousand tokens, the price
  computation returns for every pair of token counts the input price
  \<open>input_tokens/1000 * price_in\<close>, the output price
  \<open>output_tokens/1000 * price_out\<close> and their sum as the total; each is a whole
  number of millionths of a dollar, so six fractional digits hold it exactly and the
  rounding changes nothing. For 1234 and 5678 tokens the three prices are 0.003702,
  0.085170 and 0.088872.
\<close>

theorem calculate_prices_exact:
  "price_in = 3 / 1000 \<and> price_out = 15 / 1000
   \<and> price_input (calculate_prices input_tokens output_tokens)
       = of_nat input_tokens / 1000 * price_in
   \<and> price_output (calculate_prices input_tokens output_tokens)
       = of_nat output_tokens / 1000 * price_out
   \<and> price_total (calculate_prices input_tokens output_tokens)
       = of_nat input_tokens / 1000 * price_in + of_nat output_tokens / 1000 * price_out
   \<and> six_decimals (price_input (calculate_prices input_tokens output_tokens))
   \<and> six_decimals (price_output (calculate_prices input_tokens output_tokens))
   \<and> six_decimals (price_total (calculate_prices input_tokens output_tokens))
   \<and> calculate_prices 1234 5678
       = \<lparr>price_input = 3702 / 1000000, price_output = 85170 / 1000000,
          price_total = 88872 / 1000000\<rparr>"
proof -
  have p: "calculate_prices m n =
      \<lparr>price_input = of_int (3 * int m) / 1000000,
       price_output = of_int (15 * int n) / 1000000,
       price_total = of_int (3 * int m + 15 * int n) / 1000000\<rparr>" for m n
    unfolding calculate_prices_def Let_def input_price_micro output_price_micro
      quantize6_exact sum_micro ..
  have e: "calculate_prices 1234 5678
       = \<lparr>price_input = 3702 / 1000000, price_output = 85170 / 1000000,
          price_total = 88872 / 1000000\<rparr>"
    unfolding p by simp
  have t: "price_total (calculate_prices input_tokens output_tokens)
       = of_nat input_tokens / 1000 * price_in + of_nat output_tokens / 1000 * price_out"
    unfolding p input_price_micro output_price_micro sum_micro by simp
  have i: "price_input (calculate_prices input_tokens output_tokens)
       = of_nat input_tokens / 1000 * price_in"
    unfolding p input_price_micro by simp
  have o: "price_output (calculate_prices input_tokens output_tokens)
       = of_nat output_tokens / 1000 * price_out"
    unfolding p output_price_micro by simp
  have s: "six_decimals (price_input (calculate_prices input_tokens output_tokens))
     \<and> six_decimals (price_output (calculate_prices input_tokens output_tokens))
     \<and> six_decimals (price_total (calculate_prices input_tokens output_tokens))"
    unfolding p by (simp add: six_decimals_exact del: of_int_mult of_int_add)
  from e t i o s show ?thesis by (simp add: price_in_def price_out_def)
qed

section \<open>Properties of the daily job\<close>

lemma mset_consolidar_datos:
  "mset (consolidar_datos datos_nuevos df_historico)
     = mset (drop_duplicates (df_historico @ datos_nuevos))"
  by (simp add: consolidar_datos_def mset_sort_values)

text \<open>
  Claim C8. When the archival object is not in storage, the daily job logs that the
  historical file was not found, takes the historical half as the empty dataset and
  still writes the consolidated object: the consolidation of the new rows alone. That
  output is valid: its rows are the first occurrences of the new rows, its keys are
  pairwise distinct, it is in descending order of date, and it holds every new row when
  the new rows have distinct keys.
\<close>

theorem daily_job_without_archival_object:
  assumes "s3 historical_key = None"
  shows "fst (daily_job s3 historical_key output_key datos_nuevos) output_key
           = Some (consolidar_datos datos_nuevos [])
       \<and> snd (daily_job s3 historical_key output_key datos_nuevos)
           = [HistoricalFileNotFound historical_key]
       \<and> mset (consolidar_datos datos_nuevos []) = mset (drop_duplicates datos_nuevos)
       \<and> set (consolidar_datos datos_nuevos []) \<subseteq> set datos_nuevos
       \<and> distinct (map row_key (consolidar_datos datos_nuevos []))
       \<and> sorted_desc (consolidar_datos datos_nuevos [])
       \<and> (distinct (map row_key datos_nuevos)
            \<longrightarrow> mset (consolidar_datos datos_nuevos []) = mset datos_nuevos)"
proof -
  have j: "daily_job s3 historical_key output_key datos_nuevos
           = (s3(output_key \<mapsto> consolidar_datos datos_nuevos []),
              [HistoricalFileNotFound historical_key])"
    using assms by (simp add: daily_job_def read_historical_def)
  have m: "mset (consolidar_datos datos_nuevos []) = mset (drop_duplicates datos_nuevos)"
    using mset_consolidar_datos [of datos_nuevos "[]"] by simp
  have "set (consolidar_datos datos_nuevos []) = set (drop_duplicates datos_nuevos)"
    using m by (metis set_mset_mset)
  then have s: "set (consolidar_datos datos_nuevos []) \<subseteq> set datos_nuevos"
    using set_drop_duplicates_from [of "[]" datos_nuevos] by (simp add: drop_duplicates_def)
  have d: "distinct (map row_key (consolidar_datos datos_nuevos []))"
    by (simp add: consolidar_datos_def drop_duplicates_def distinct_keys_sort_values
        distinct_drop_duplicates_from)
  have "distinct (map row_key datos_nuevos) \<Longrightarrow> drop_duplicates datos_nuevos = datos_nuevos"
    by (simp add: drop_duplicates_def drop_duplicates_from_distinct)
  with j m s d show ?thesis
    by (auto simp: consolidar_datos_sorted)
qed

theorem daily_job_without_archival_object_witness:
  "(Map.empty :: storage) ''archives/tokens-analysis/tokens_analysis_old_table.csv'' = None
   \<and> distinct (map row_key [new_row, new_row_other, new_row_third])
   \<and> fst (daily_job Map.empty ''archives/tokens-analysis/tokens_analysis_old_table.csv''
             ''tokens-analysis/tokens_analysis_consolidated.csv''
             [new_row, new_row_other, new_row_third])
        ''tokens-analysis/tokens_analysis_consolidated.csv''
       = Some [new_row_other, new_row, new_row_third]
   \<and> snd (daily_job Map.empty ''archives/tokens-analysis/tokens_analysis_old_table.csv''
             ''tokens-analysis/tokens_analysis_consolidated.csv''
             [new_row, new_row_other, new_row_third])
       = [HistoricalFileNotFound ''archives/tokens-analysis/tokens_analysis_old_table.csv'']
   \<and> map source [new_row_other, new_row, new_row_third]
       = [''new_table'', ''new_table'', ''new_table'']"
proof -
  have h: "(Map.empty :: storage) ''archives/tokens-analysis/tokens_analysis_old_table.csv'' = None"
    by simp
  have k: "distinct (map row_key [new_row, new_row_other, new_row_third])"
    by (simp add: row_key_def new_row_third_def new_row_other_def new_row_def old_row_def)
  have c: "consolidar_datos [new_row, new_row_other, new_row_third] []
           = [new_row_other, new_row, new_row_third]"
    by (simp add: consolidar_datos_def drop_duplicates_def row_key_def
        new_row_third_def new_row_other_def new_row_def old_row_def)
  have t: "map source [new_row_other, new_row, new_row_third]
           = [''new_table'', ''new_table'', ''new_table'']"
    by (simp add: new_row_third_def new_row_other_def new_row_def old_row_def)
  from daily_job_without_archival_object
      [where output_key = "''tokens-analysis/tokens_analysis_consolidated.csv''"
         and datos_nuevos = "[new_row, new_row_other, new_row_third]", OF h]
  have "fst (daily_job Map.empty ''archives/tokens-analysis/tokens_analysis_old_table.csv''
             ''tokens-analysis/tokens_analysis_consolidated.csv''
             [new_row, new_row_other, new_row_third])
        ''tokens-analysis/tokens_analysis_consolidated.csv''
       = Some (consolidar_datos [new_row, new_row_other, new_row_third] [])
     \<and> snd (daily_job Map.empty ''archives/tokens-analysis/tokens_analysis_old_table.csv''
             ''tokens-analysis/tokens_analysis_consolidated.csv''
             [new_row, new_row_other, new_row_third])
       = [HistoricalFileNotFound ''archives/tokens-analysis/tokens_analysis_old_table.csv'']"
    by blast
  with h k c t show ?thesis by simp
qed

section \<open>Properties of the trigger rule\<close>

text \<open>
  Claim C9. On an "Object Created" event of S3, the rule of the orchestrator matches if
  and only if the bucket of the event is the configured data bucket and the object key
  begins with the configured prefix of the extract stage. A matching event invokes the
  start of the transform job exactly once; an event of the same bucket under any other
  prefix invokes nothing.
\<close>

theorem orchestrator_rule_matches:
  assumes "ev_source e = ''aws.s3''" and "ev_detail_type e = ''Object Created''"
  shows "matches (eventPattern (OrchestratorConstruct environment bucketName cleanPrefix glueJobName)) e
           = (ev_bucket_name e = bucketName
              \<and> take (length cleanPrefix) (ev_object_key e) = cleanPrefix)
       \<and> invocations (OrchestratorConstruct environment bucketName cleanPrefix glueJobName) e
           = (if ev_bucket_name e = bucketName
                 \<and> take (length cleanPrefix) (ev_object_key e) = cleanPrefix
              then [AwsApi ''Glue'' ''startJobRun'' glueJobName] else [])"
  using assms by (simp add: invocations_def matches_def OrchestratorConstruct_def)

theorem orchestrator_rule_matches_witness:
  "ev_source (object_created prod_dataBucketName ''reports/etl-process1/data.csv'') = ''aws.s3''
   \<and> ev_detail_type (object_created prod_dataBucketName ''reports/etl-process1/data.csv'')
       = ''Object Created''
   \<and> invocations prod_rule (object_created prod_dataBucketName ''reports/etl-process1/data.csv'')
       = [AwsApi ''Glue'' ''startJobRun'' ''cat-prod-etl2-parquet'']
   \<and> ev_source (object_created prod_dataBucketName (prod_curatedPrefix @ ''data.parquet'')) = ''aws.s3''
   \<and> ev_detail_type (object_created prod_dataBucketName (prod_curatedPrefix @ ''data.parquet''))
       = ''Object Created''
   \<and> invocations prod_rule (object_created prod_dataBucketName (prod_curatedPrefix @ ''data.parquet''))
       = []
   \<and> invocations prod_rule
        (object_created ''cat-test-normalize-reports'' ''reports/etl-process1/data.csv'') = []"
proof -
  have s: "ev_source (object_created b k) = ''aws.s3''" for b k
    by (simp add: object_created_def)
  have t: "ev_detail_type (object_created b k) = ''Object Created''" for b k
    by (simp add: object_created_def)
  have i: "invocations prod_rule (object_created b k)
           = (if b = prod_dataBucketName \<and> take (length prod_cleanPrefix) k = prod_cleanPrefix
              then [AwsApi ''Glue'' ''startJobRun'' (transform_jobName ''prod'')] else [])" for b k
    using orchestrator_rule_matches
        [where environment = "''prod''" and bucketName = prod_dataBucketName
           and cleanPrefix = prod_cleanPrefix and glueJobName = "transform_jobName ''prod''",
         OF s t, of b k]
    by (simp add: prod_rule_def object_created_def)
  show ?thesis
    by (simp add: s t i prod_cleanPrefix_def prod_curatedPrefix_def prod_dataBucketName_def
        transform_jobName_def)
qed

end
